theory Spec2Isabelle
  imports Complex_Main "HOL-Library.Log_Nat"
begin

section \<open>The PPG analysis dispatcher of NeuroKit (\<^verbatim>\<open>neurokit2/ppg/ppg_analyze.py\<close>)\<close>

text \<open>
  \<^verbatim>\<open>ppg_analyze(data, sampling_rate=1000, method="auto")\<close> lower-cases \<^verbatim>\<open>method\<close>, and then
  either checks the column names and calls \<^verbatim>\<open>ppg_eventrelated(data)\<close>, or calls
  \<^verbatim>\<open>ppg_intervalrelated(data, sampling_rate=sampling_rate)\<close>, or estimates a duration and
  picks one of the two. The two extractors live in sibling modules; they are parameters of
  the model.
\<close>

subsection \<open>Python values\<close>

text \<open>
  The exceptions that the function can end with. \<^verbatim>\<open>UnboundLocalError\<close> carries the name of
  the local variable that is read before any assignment; \<^verbatim>\<open>KeyError\<close> and
  \<^verbatim>\<open>IndexError\<close> are the two failures of \<^verbatim>\<open>[0]\<close> on a series; \<^verbatim>\<open>OtherError\<close> is
  whatever else an extractor raises.
\<close>

datatype error =
    ValueError string
  | UnboundLocalError string
  | ZeroDivisionError
  | OverflowError
  | KeyError
  | IndexError
  | OtherError string

subsection \<open>Floating-point division\<close>

text \<open>
  A Python float is an IEEE 754 double: a finite value, which is a rational on the grid of
  the doubles, positive infinity or not-a-number. A comparison with not-a-number is false.
\<close>

datatype pyfloat = Finite rat | PosInf | NaN

fun float_ge :: "pyfloat \<Rightarrow> rat \<Rightarrow> bool" where
  "float_ge (Finite q) t = (t \<le> q)"
| "float_ge PosInf t = True"
| "float_ge NaN t = False"

text \<open>
  Rounding to the nearest double, ties to the even significand. For \<open>q > 0\<close>,
  \<open>exponent q\<close> is the \<open>e\<close> with \<open>2 powi e \<le> q < 2 powi (e + 1)\<close>. A double has 53
  significant bits, so the doubles around \<open>q\<close> are the multiples of \<open>2 powi (e - 52)\<close>; the
  subnormal doubles are the multiples of \<open>2 powi (- 1074)\<close>, and no step is finer.
\<close>

definition round_half_even :: "rat \<Rightarrow> int" where
  "round_half_even x =
     (let f = \<lfloor>x\<rfloor>; r = x - of_int f
      in if r < 1 / 2 then f else if 1 / 2 < r then f + 1 else if even f then f else f + 1)"

definition exponent :: "rat \<Rightarrow> int" where
  "exponent q =
     (case quotient_of q of
        (a, b) \<Rightarrow> let d = bitlen a - bitlen b in if 2 powi d \<le> q then d else d - 1)"

definition ulp_exponent :: "rat \<Rightarrow> int" where
  "ulp_exponent q = max (exponent q - 52) (- 1074)"

definition round_double :: "rat \<Rightarrow> rat" where
  "round_double q =
     (if q = 0 then 0
      else sgn q * (of_int (round_half_even (\<bar>q\<bar> / 2 powi ulp_exponent \<bar>q\<bar>))
                     * 2 powi ulp_exponent \<bar>q\<bar>))"

text \<open>
  \<^verbatim>\<open>a / b\<close> on two Python integers: the double nearest to the quotient. It raises on a zero
  divisor, and when the rounded quotient is beyond the largest double.
\<close>

definition py_truediv :: "int \<Rightarrow> int \<Rightarrow> error + pyfloat" where
  "py_truediv a b =
     (if b = 0 then Inl ZeroDivisionError
      else let r = round_double (of_int a / of_int b)
           in if 2 ^ 1024 \<le> \<bar>r\<bar> then Inl OverflowError else Inr (Finite r))"

text \<open>
  \<^verbatim>\<open>a / b\<close> whose left operand is a numpy \<^verbatim>\<open>int64\<close> (an entry of \<^verbatim>\<open>value_counts()\<close>, hence
  not negative): numpy takes the Python integer \<^verbatim>\<open>b\<close> as an \<^verbatim>\<open>int64\<close> and raises when it
  does not fit; it then converts both operands to doubles and divides them. A zero divisor
  does not raise: it warns and gives \<^verbatim>\<open>inf\<close>, or \<^verbatim>\<open>nan\<close> for \<^verbatim>\<open>0 / 0\<close>.
\<close>

definition np_truediv :: "nat \<Rightarrow> int \<Rightarrow> error + pyfloat" where
  "np_truediv a b =
     (if b < - (2 ^ 63) \<or> 2 ^ 63 \<le> b then Inl OverflowError
      else if b = 0 then Inr (if 0 < a then PosInf else NaN)
      else Inr (Finite (round_double (round_double (of_nat a) / round_double (of_int b)))))"

subsection \<open>Strings\<close>

text \<open>
  \<^verbatim>\<open>str.lower()\<close>. A \<^typ>\<open>string\<close> is a list of bytes; the ASCII capitals are mapped to
  their small letters and every other byte is kept.
\<close>

definition lower_char :: "char \<Rightarrow> char" where
  "lower_char c =
     (let n = (of_char c :: nat) in if 65 \<le> n \<and> n \<le> 90 then char_of (n + 32) else c)"

definition lower :: "string \<Rightarrow> string" where
  "lower s = map lower_char s"

text \<open>\<^verbatim>\<open>sub in s\<close> on two strings: \<^verbatim>\<open>sub\<close> occurs in \<^verbatim>\<open>s\<close> as a contiguous block.\<close>

definition startswith :: "string \<Rightarrow> string \<Rightarrow> bool" where
  "startswith s sub = (take (length sub) s = sub)"

fun str_contains :: "string \<Rightarrow> string \<Rightarrow> bool" where
  "str_contains sub [] = (sub = [])"
| "str_contains sub (c # cs) = (startswith (c # cs) sub \<or> str_contains sub cs)"

subsection \<open>Tables and the input data\<close>

text \<open>
  A \<^verbatim>\<open>pd.DataFrame\<close>: its column names in order, the number of its rows (\<^verbatim>\<open>len(df)\<close>)
  and the value held at a row of a column. \<^verbatim>\<open>df[name]\<close> is the column as a list.
\<close>

record 'v dataframe =
  columns :: "string list"
  nrows :: nat
  cell :: "nat \<Rightarrow> string \<Rightarrow> 'v"

definition getcol :: "'v dataframe \<Rightarrow> string \<Rightarrow> 'v list" where
  "getcol df name = map (\<lambda>r. cell df r name) [0..<nrows df]"

text \<open>
  The cells that the function reads are those of the \<^verbatim>\<open>Label\<close> column: an integer, a
  string, or a missing value (\<^verbatim>\<open>None\<close>, \<^verbatim>\<open>NaN\<close>).
\<close>

datatype pyvalue = PyInt int | PyStr string | Missing

text \<open>
  \<^verbatim>\<open>Series.value_counts()\<close>: the missing values are dropped; the result holds every other
  distinct value, as the index, with the number of its occurrences, the most frequent
  first. The order among equal counts is of no consequence below.
\<close>

definition dropna :: "pyvalue list \<Rightarrow> pyvalue list" where
  "dropna xs = filter (\<lambda>v. v \<noteq> Missing) xs"

definition value_counts :: "pyvalue list \<Rightarrow> (pyvalue \<times> nat) list" where
  "value_counts xs =
     (let present = dropna xs
      in sort_key (\<lambda>p. - int (snd p)) (map (\<lambda>v. (v, count_list present v)) (remdups present)))"

text \<open>
  \<^verbatim>\<open>s[0]\<close> on such a series. When the index holds an integer, pandas takes the key \<^verbatim>\<open>0\<close>
  as a label: the result is the entry of the label \<^verbatim>\<open>0\<close>, and a \<^verbatim>\<open>KeyError\<close> if there is
  none. On an index of strings the key \<^verbatim>\<open>0\<close> falls back to the position: the result is the
  first entry.
\<close>

fun is_int :: "pyvalue \<Rightarrow> bool" where
  "is_int (PyInt n) = True"
| "is_int v = False"

definition series_getitem_0 :: "(pyvalue \<times> nat) list \<Rightarrow> error + nat" where
  "series_getitem_0 s =
     (if list_ex (\<lambda>p. is_int (fst p)) s then
        (case map_of s (PyInt 0) of None \<Rightarrow> Inl KeyError | Some c \<Rightarrow> Inr c)
      else
        (case s of [] \<Rightarrow> Inl IndexError | (v, c) # rest \<Rightarrow> Inr c))"

text \<open>
  The \<^verbatim>\<open>data\<close> argument: a \<^verbatim>\<open>dict\<close> of tables, given by its items in iteration order, a
  single table, or a Python value that is neither.
\<close>

datatype ('k, 'v) pydata =
    Dict "('k \<times> 'v dataframe) list"
  | DataFrame "'v dataframe"
  | Other

subsection \<open>The extractors and the outcome of a call\<close>

text \<open>
  \<^verbatim>\<open>ppg_eventrelated\<close> and \<^verbatim>\<open>ppg_intervalrelated\<close> are given as functions from their
  arguments to what they return or raise, together with the \<^verbatim>\<open>data\<close> object as they
  leave it (Python passes it by reference). The outcome of \<^verbatim>\<open>ppg_analyze\<close> is what it returns
  or raises, the \<^verbatim>\<open>data\<close> object afterwards, and the extractor calls made, with their
  arguments.
\<close>

datatype ('k, 'v) call =
    EventRelated "('k, 'v) pydata"
  | IntervalRelated "('k, 'v) pydata" int

record ('k, 'v, 'f) outcome =
  result :: "error + 'f"
  data_after :: "('k, 'v) pydata"
  calls :: "('k, 'v) call list"

definition raise :: "error \<Rightarrow> ('k, 'v) pydata \<Rightarrow> ('k, 'v, 'f) outcome" where
  "raise e data = \<lparr>result = Inl e, data_after = data, calls = []\<rparr>"

definition call_eventrelated ::
  "(('k, 'v) pydata \<Rightarrow> (error + 'f) \<times> ('k, 'v) pydata) \<Rightarrow> ('k, 'v) pydata \<Rightarrow> ('k, 'v, 'f) outcome"
where
  "call_eventrelated ppg_eventrelated data =
     (case ppg_eventrelated data of
        (features, data') \<Rightarrow>
          \<lparr>result = features, data_after = data', calls = [EventRelated data]\<rparr>)"

definition call_intervalrelated ::
  "(('k, 'v) pydata \<Rightarrow> int \<Rightarrow> (error + 'f) \<times> ('k, 'v) pydata) \<Rightarrow> ('k, 'v) pydata \<Rightarrow> int
     \<Rightarrow> ('k, 'v, 'f) outcome"
where
  "call_intervalrelated ppg_intervalrelated data sampling_rate =
     (case ppg_intervalrelated data sampling_rate of
        (features, data') \<Rightarrow>
          \<lparr>result = features, data_after = data',
           calls = [IntervalRelated data sampling_rate]\<rparr>)"

subsection \<open>\<^verbatim>\<open>ppg_analyze\<close>\<close>

text \<open>
  The loop \<^verbatim>\<open>for i in data: colnames = data[i].columns.values\<close>. The local variable is
  \<^const>\<open>None\<close> while it is unbound.
\<close>

fun colnames_loop ::
  "('k \<times> 'v dataframe) list \<Rightarrow> string list option \<Rightarrow> string list option"
where
  "colnames_loop [] colnames = colnames"
| "colnames_loop ((i, df) # items) colnames = colnames_loop items (Some (columns df))"

definition event_colnames :: "('k, 'v) pydata \<Rightarrow> string list option" where
  "event_colnames data =
     (case data of
        Dict items \<Rightarrow> colnames_loop items None
      | DataFrame df \<Rightarrow> Some (columns df)
      | Other \<Rightarrow> None)"

text \<open>
  The loop \<^verbatim>\<open>for i in data: duration = len(data[i]) / sampling_rate\<close>; a division that
  raises ends it.
\<close>

fun duration_loop ::
  "('k \<times> 'v dataframe) list \<Rightarrow> int \<Rightarrow> pyfloat option \<Rightarrow> error + pyfloat option"
where
  "duration_loop [] sampling_rate duration = Inr duration"
| "duration_loop ((i, df) # items) sampling_rate duration =
     (case py_truediv (int (nrows df)) sampling_rate of
        Inl e \<Rightarrow> Inl e
      | Inr d \<Rightarrow> duration_loop items sampling_rate (Some d))"

text \<open>The duration of a single table, lines 107 to 111.\<close>

definition frame_duration :: "pyvalue dataframe \<Rightarrow> int \<Rightarrow> error + pyfloat" where
  "frame_duration df sampling_rate =
     (if ''Label'' \<in> set (columns df) then
        (case series_getitem_0 (value_counts (getcol df ''Label'')) of
           Inl e \<Rightarrow> Inl e
         | Inr epoch_len \<Rightarrow> np_truediv epoch_len sampling_rate)
      else py_truediv (int (nrows df)) sampling_rate)"

definition event_methods :: "string list" where
  "event_methods = [''event-related'', ''event'', ''epoch'']"

definition interval_methods :: "string list" where
  "interval_methods = [''interval-related'', ''interval'', ''resting-state'']"

definition mismatch_message :: string where
  "mismatch_message =
     ''NeuroKit error: ppg_analyze(): Wrong input or method,we couldn't extract epochs features.''"

definition ppg_analyze ::
  "(('k, pyvalue) pydata \<Rightarrow> (error + 'f) \<times> ('k, pyvalue) pydata)
     \<Rightarrow> (('k, pyvalue) pydata \<Rightarrow> int \<Rightarrow> (error + 'f) \<times> ('k, pyvalue) pydata)
     \<Rightarrow> ('k, pyvalue) pydata \<Rightarrow> int \<Rightarrow> string \<Rightarrow> ('k, pyvalue, 'f) outcome"
where
  "ppg_analyze ppg_eventrelated ppg_intervalrelated data sampling_rate method0 =
     (let method = lower method0 in
      if method \<in> set event_methods then
        (case event_colnames data of
           None \<Rightarrow> raise (UnboundLocalError ''colnames'') data
         | Some colnames \<Rightarrow>
             if length (filter (\<lambda>i. str_contains ''Label'' i) colnames) = 0
             then raise (ValueError mismatch_message) data
             else call_eventrelated ppg_eventrelated data)
      else if method \<in> set interval_methods then
        call_intervalrelated ppg_intervalrelated data sampling_rate
      else if method \<in> set [''auto''] then
        (case data of
           Dict items \<Rightarrow>
             (case duration_loop items sampling_rate None of
                Inl e \<Rightarrow> raise e data
              | Inr None \<Rightarrow> raise (UnboundLocalError ''duration'') data
              | Inr (Some duration) \<Rightarrow>
                  if float_ge duration 10
                  then call_intervalrelated ppg_intervalrelated data sampling_rate
                  else call_eventrelated ppg_eventrelated data)
         | DataFrame df \<Rightarrow>
             (case frame_duration df sampling_rate of
                Inl e \<Rightarrow> raise e data
              | Inr duration \<Rightarrow>
                  if float_ge duration 10
                  then call_intervalrelated ppg_intervalrelated data sampling_rate
                  else call_eventrelated ppg_eventrelated data)
         | Other \<Rightarrow> raise (UnboundLocalError ''features'') data)
      else raise (UnboundLocalError ''features'') data)"

subsection \<open>What the function reads of the data\<close>

text \<open>
  The column names and the number of rows of every table, and for a single table with a
  \<^verbatim>\<open>Label\<close> column the values of that column.
\<close>

datatype readings =
    DictRead "(string list \<times> nat) list"
  | FrameRead "string list" nat "pyvalue list"
  | OtherRead

definition data_read :: "('k, pyvalue) pydata \<Rightarrow> readings" where
  "data_read data =
     (case data of
        Dict items \<Rightarrow> DictRead (map (\<lambda>(i, df). (columns df, nrows df)) items)
      | DataFrame df \<Rightarrow>
          FrameRead (columns df) (nrows df)
            (if ''Label'' \<in> set (columns df) then getcol df ''Label'' else [])
      | Other \<Rightarrow> OtherRead)"

subsection \<open>Example inputs\<close>

text \<open>
  Two extractors that leave the data alone and return a fixed table, and one that empties
  the object it is given; a table of processed
  signals without a \<^verbatim>\<open>Label\<close> column; a table of concatenated epochs whose first three
  rows belong to epoch \<^verbatim>\<open>1\<close> and whose other rows belong to epoch \<^verbatim>\<open>2\<close>; the same epochs
  with other signal values; a table whose first seven rows belong to epoch \<^verbatim>\<open>1\<close>; a table
  whose epochs are numbered, the first row belonging to epoch 0 and the others to epoch 1;
  and a table whose epoch column has another name.
\<close>

definition example_eventrelated ::
  "(nat, pyvalue) pydata \<Rightarrow> (error + string) \<times> (nat, pyvalue) pydata"
where
  "example_eventrelated data = (Inr ''event-related features'', data)"

definition example_intervalrelated ::
  "(nat, pyvalue) pydata \<Rightarrow> int \<Rightarrow> (error + string) \<times> (nat, pyvalue) pydata"
where
  "example_intervalrelated data sampling_rate = (Inr ''interval-related features'', data)"

definition clearing_eventrelated ::
  "(nat, pyvalue) pydata \<Rightarrow> (error + string) \<times> (nat, pyvalue) pydata"
where
  "clearing_eventrelated data = (Inr ''event-related features'', Dict [])"

definition signals :: "nat \<Rightarrow> pyvalue dataframe" where
  "signals n = \<lparr>columns = [''PPG_Clean'', ''PPG_Rate''], nrows = n, cell = (\<lambda>r c. PyInt 0)\<rparr>"

definition epochs_table :: "nat \<Rightarrow> pyvalue dataframe" where
  "epochs_table n =
     \<lparr>columns = [''PPG_Rate'', ''Label''], nrows = n,
      cell = (\<lambda>r c. if c = ''Label'' then (if r < 3 then PyStr ''1'' else PyStr ''2'')
                     else PyInt 0)\<rparr>"

definition other_epochs_table :: "nat \<Rightarrow> pyvalue dataframe" where
  "other_epochs_table n =
     \<lparr>columns = [''PPG_Rate'', ''Label''], nrows = n,
      cell = (\<lambda>r c. if c = ''Label'' then (if r < 3 then PyStr ''1'' else PyStr ''2'')
                     else PyInt 1)\<rparr>"

definition halved_table :: "nat \<Rightarrow> pyvalue dataframe" where
  "halved_table n =
     \<lparr>columns = [''PPG_Rate'', ''Label''], nrows = n,
      cell = (\<lambda>r c. if c = ''Label'' then (if r < 7 then PyStr ''1'' else PyStr ''2'')
                     else PyInt 0)\<rparr>"

definition numbered_table :: "nat \<Rightarrow> pyvalue dataframe" where
  "numbered_table n =
     \<lparr>columns = [''PPG_Rate'', ''Label''], nrows = n,
      cell = (\<lambda>r c. if c = ''Label'' then (if r < 1 then PyInt 0 else PyInt 1)
                     else PyInt 0)\<rparr>"

definition marked_table :: "nat \<Rightarrow> pyvalue dataframe" where
  "marked_table n =
     \<lparr>columns = [''PPG_Rate'', ''Epoch_Label''], nrows = n, cell = (\<lambda>r c. PyInt 0)\<rparr>"

section \<open>Properties\<close>

subsection \<open>Auxiliary facts\<close>

lemmas lower_eval = lower_def lower_char_def char_of_def bit_Suc_0_iff

lemmas outcome_defs = raise_def call_eventrelated_def call_intervalrelated_def

lemmas example_defs =
  example_eventrelated_def example_intervalrelated_def signals_def epochs_table_def

lemma event_not_interval: "m \<in> set event_methods \<Longrightarrow> m \<notin> set interval_methods"
  by (auto simp: event_methods_def interval_methods_def)

lemma interval_not_event: "m \<in> set interval_methods \<Longrightarrow> m \<notin> set event_methods"
  by (auto simp: event_methods_def interval_methods_def)

lemma auto_not_event: "''auto'' \<notin> set event_methods"
  by (simp add: event_methods_def)

lemma auto_not_interval: "''auto'' \<notin> set interval_methods"
  by (simp add: interval_methods_def)

text \<open>\<^const>\<open>str_contains\<close> is the substring relation.\<close>

lemma startswith_iff: "startswith s sub \<longleftrightarrow> (\<exists>ss. s = sub @ ss)"
  unfolding startswith_def by (metis append_eq_conv_conj)

lemma str_contains_iff: "str_contains sub s \<longleftrightarrow> (\<exists>ps ss. s = ps @ sub @ ss)"
proof (induction s)
  case Nil
  then show ?case by auto
next
  case (Cons c cs)
  show ?case
  proof
    assume "str_contains sub (c # cs)"
    then consider "startswith (c # cs) sub" | "str_contains sub cs" by auto
    then show "\<exists>ps ss. c # cs = ps @ sub @ ss"
    proof cases
      case 1
      then obtain ss where "c # cs = sub @ ss" by (auto simp: startswith_iff)
      then have "c # cs = [] @ sub @ ss" by simp
      then show ?thesis by blast
    next
      case 2
      then obtain ps ss where "cs = ps @ sub @ ss" using Cons.IH by auto
      then have "c # cs = (c # ps) @ sub @ ss" by simp
      then show ?thesis by blast
    qed
  next
    assume "\<exists>ps ss. c # cs = ps @ sub @ ss"
    then obtain ps ss where eq: "c # cs = ps @ sub @ ss" by auto
    show "str_contains sub (c # cs)"
    proof (cases ps)
      case Nil
      then have "startswith (c # cs) sub" using eq by (auto simp: startswith_iff)
      then show ?thesis by simp
    next
      case (Cons p ps')
      then have "cs = ps' @ sub @ ss" using eq by simp
      then have "str_contains sub cs" using Cons.IH by blast
      then show ?thesis by simp
    qed
  qed
qed

text \<open>After either loop over a mapping with a last member, only that member counts.\<close>

lemma colnames_loop_last: "colnames_loop (items @ [(k, df)]) c = Some (columns df)"
  by (induction items arbitrary: c) auto

text \<open>The event-related branch, once the column names are known.\<close>

lemma event_branch:
  assumes "lower method \<in> set event_methods" and "event_colnames data = Some colnames"
  shows "ppg_analyze ev iv data sampling_rate method =
     (if \<exists>c\<in>set colnames. str_contains ''Label'' c
      then \<lparr>result = fst (ev data), data_after = snd (ev data), calls = [EventRelated data]\<rparr>
      else \<lparr>result = Inl (ValueError mismatch_message), data_after = data, calls = []\<rparr>)"
  using assms
  by (auto simp: ppg_analyze_def Let_def outcome_defs filter_empty_conv split: prod.splits)

subsection \<open>Rounding to a double\<close>

lemma round_half_even_ge: "of_int k \<le> x \<Longrightarrow> k \<le> round_half_even x"
  unfolding round_half_even_def Let_def by (auto simp: le_floor_iff) linarith+

lemma round_half_even_le: "x \<le> of_int k \<Longrightarrow> round_half_even x \<le> k"
proof -
  assume le: "x \<le> of_int k"
  have f: "\<lfloor>x\<rfloor> \<le> k" using le by (simp add: floor_le_iff) 
  show ?thesis
  proof (cases "\<lfloor>x\<rfloor> = k")
    case True
    then have "x = of_int k" using le
      by (metis of_int_floor_le order_antisym)
    then show ?thesis by (simp add: round_half_even_def)
  next
    case False
    then have "\<lfloor>x\<rfloor> + 1 \<le> k" using f by simp
    then show ?thesis unfolding round_half_even_def Let_def by auto
  qed
qed

lemma exponent_bounds:
  assumes "0 < q"
  shows "2 powi exponent q \<le> q" and "q < 2 powi (exponent q + 1)"
proof -
  obtain a b where quot: "quotient_of q = (a, b)" by (cases "quotient_of q")
  have b: "0 < b" using quotient_of_denom_pos[OF quot] .
  have q: "q = of_int a / of_int b" using quotient_of_div[OF quot] .
  have a: "0 < a" using assms b q by (simp add: zero_less_divide_iff)
  define A where "A = bitlen a"
  define B where "B = bitlen b"
  have A1: "1 \<le> A" using a by (simp add: A_def bitlen_alt_def)
  have B1: "1 \<le> B" using b by (simp add: B_def bitlen_alt_def)
  have "(2::int) ^ nat (A - 1) \<le> a" "a < 2 ^ nat A"
    using bitlen_bounds[OF a] by (simp_all add: A_def)
  then have "rat_of_int (2 ^ nat (A - 1)) \<le> of_int a" "rat_of_int a < of_int (2 ^ nat A)"
    by (simp_all only: of_int_le_iff of_int_less_iff)
  then have a_lo: "(2::rat) powi (A - 1) \<le> of_int a" and a_hi: "rat_of_int a < 2 powi A"
    using A1 by (simp_all add: power_int_def)
  have "(2::int) ^ nat (B - 1) \<le> b" "b < 2 ^ nat B"
    using bitlen_bounds[OF b] by (simp_all add: B_def)
  then have "rat_of_int (2 ^ nat (B - 1)) \<le> of_int b" "rat_of_int b < of_int (2 ^ nat B)"
    by (simp_all only: of_int_le_iff of_int_less_iff)
  then have b_lo: "(2::rat) powi (B - 1) \<le> of_int b" and b_hi: "rat_of_int b < 2 powi B"
    using B1 by (simp_all add: power_int_def)
  have bpos: "(0::rat) < of_int b" using b by simp
  have above: "q < 2 powi (A - B + 1)"
  proof -
    have "of_int a < (2::rat) powi (A - B + 1) * 2 powi (B - 1)"
      using a_hi by (simp add: power_int_add[symmetric])
    also have "\<dots> \<le> 2 powi (A - B + 1) * of_int b"
      using b_lo by (simp add: mult_left_mono)
    finally show ?thesis using bpos by (simp add: q pos_divide_less_eq)
  qed
  have below: "2 powi (A - B - 1) < q"
  proof -
    have "(2::rat) powi (A - B - 1) * of_int b < 2 powi (A - B - 1) * 2 powi B"
      using b_hi by (simp add: mult_strict_left_mono)
    also have "\<dots> = 2 powi (A - 1)" by (simp add: power_int_add[symmetric])
    also have "\<dots> \<le> of_int a" using a_lo .
    finally show ?thesis using bpos by (simp add: q pos_less_divide_eq)
  qed
  have e: "exponent q = (if 2 powi (A - B) \<le> q then A - B else A - B - 1)"
    by (simp add: exponent_def quot A_def B_def Let_def)
  show "2 powi exponent q \<le> q" using below by (simp add: e)
  show "q < 2 powi (exponent q + 1)" using above by (auto simp: e)
qed

lemma exponent_le: "0 < q \<Longrightarrow> q \<le> 2 powi j \<Longrightarrow> exponent q \<le> j"
proof (rule ccontr)
  assume q: "0 < q" "q \<le> 2 powi j" and "\<not> exponent q \<le> j"
  then have "j + 1 \<le> exponent q" by simp
  then have "(2::rat) powi (j + 1) \<le> 2 powi exponent q"
    by (intro power_int_increasing) simp_all
  moreover have "(2::rat) powi j < 2 powi (j + 1)"
    by (intro power_int_strict_increasing) simp_all
  ultimately show False using exponent_bounds(1)[OF q(1)] q(2) by linarith
qed

lemma exponent_less: "0 < q \<Longrightarrow> q < 2 powi j \<Longrightarrow> exponent q < j"
proof (rule ccontr)
  assume q: "0 < q" "q < 2 powi j" and "\<not> exponent q < j"
  then have "j \<le> exponent q" by simp
  then have "(2::rat) powi j \<le> 2 powi exponent q"
    by (intro power_int_increasing) simp_all
  then show False using exponent_bounds(1)[OF q(1)] q(2) by linarith
qed

lemma exponent_ge: "0 < q \<Longrightarrow> 2 powi j \<le> q \<Longrightarrow> j \<le> exponent q"
proof (rule ccontr)
  assume q: "0 < q" "2 powi j \<le> q" and "\<not> j \<le> exponent q"
  then have "exponent q + 1 \<le> j" by simp
  then have "(2::rat) powi (exponent q + 1) \<le> 2 powi j"
    by (intro power_int_increasing) simp_all
  then show False using exponent_bounds(2)[OF q(1)] q(2) by linarith
qed

lemma round_double_pos:
  "0 < q \<Longrightarrow>
   round_double q =
     of_int (round_half_even (q / 2 powi ulp_exponent q)) * 2 powi ulp_exponent q"
  by (simp add: round_double_def)

lemma round_double_minus: "round_double (- q) = - round_double q"
  by (simp add: round_double_def sgn_minus)

lemma round_double_abs: "\<bar>round_double q\<bar> = round_double \<bar>q\<bar>"
proof -
  have nonneg: "0 \<le> round_double x" if "0 < x" for x
  proof -
    have "0 \<le> x / 2 powi ulp_exponent x" using that by simp
    then have "0 \<le> round_half_even (x / 2 powi ulp_exponent x)"
      using round_half_even_ge[of 0] by simp
    then show ?thesis using that by (simp add: round_double_pos)
  qed
  consider "q = 0" | "0 < q" | "q < 0" by linarith
  then show ?thesis
  proof cases
    case 1
    then show ?thesis by (simp add: round_double_def)
  next
    case 2
    then show ?thesis using nonneg[of q] by simp
  next
    case 3
    then have "0 \<le> round_double (- q)" using nonneg[of "- q"] by simp
    then show ?thesis using 3 by (simp add: round_double_minus)
  qed
qed

lemma on_grid:
  assumes "k \<le> j"
  shows "of_int c * 2 powi j / 2 powi k = rat_of_int (c * 2 ^ nat (j - k))"
proof -
  have "rat_of_int c * 2 powi j / 2 powi k = of_int c * (2 powi j / 2 powi k)" by simp
  also have "(2::rat) powi j / 2 powi k = 2 powi (j - k)" by (simp add: power_int_diff)
  also have "\<dots> = 2 ^ nat (j - k)" using assms by (simp add: power_int_def)
  finally show ?thesis by simp
qed

lemma round_double_ge_grid:
  assumes "0 < q" and "ulp_exponent q \<le> j" and "of_int c * 2 powi j \<le> q"
  shows "of_int c * 2 powi j \<le> round_double q"
proof -
  define u :: rat where "u = 2 powi ulp_exponent q"
  have u: "0 < u" by (simp add: u_def)
  have grid: "of_int c * 2 powi j / u = rat_of_int (c * 2 ^ nat (j - ulp_exponent q))"
    unfolding u_def by (rule on_grid[OF assms(2)])
  have "of_int c * 2 powi j / u \<le> q / u" using assms(3) u by (simp add: divide_right_mono)
  then have "c * 2 ^ nat (j - ulp_exponent q) \<le> round_half_even (q / u)"
    unfolding grid by (rule round_half_even_ge)
  then have "rat_of_int (c * 2 ^ nat (j - ulp_exponent q)) \<le> of_int (round_half_even (q / u))"
    by (simp only: of_int_le_iff)
  then have "of_int c * 2 powi j / u \<le> of_int (round_half_even (q / u))"
    by (simp only: grid)
  then have "of_int c * 2 powi j \<le> of_int (round_half_even (q / u)) * u"
    using u by (simp add: pos_divide_le_eq)
  then show ?thesis using assms(1) by (simp add: round_double_pos u_def)
qed

lemma round_double_le_grid:
  assumes "0 < q" and "ulp_exponent q \<le> j" and "q \<le> of_int c * 2 powi j"
  shows "round_double q \<le> of_int c * 2 powi j"
proof -
  define u :: rat where "u = 2 powi ulp_exponent q"
  have u: "0 < u" by (simp add: u_def)
  have grid: "of_int c * 2 powi j / u = rat_of_int (c * 2 ^ nat (j - ulp_exponent q))"
    unfolding u_def by (rule on_grid[OF assms(2)])
  have "q / u \<le> of_int c * 2 powi j / u" using assms(3) u by (simp add: divide_right_mono)
  then have "round_half_even (q / u) \<le> c * 2 ^ nat (j - ulp_exponent q)"
    unfolding grid by (rule round_half_even_le)
  then have "rat_of_int (round_half_even (q / u)) \<le> of_int (c * 2 ^ nat (j - ulp_exponent q))"
    by (simp only: of_int_le_iff)
  then have "of_int (round_half_even (q / u)) \<le> of_int c * 2 powi j / u"
    by (simp only: grid)
  then have "of_int (round_half_even (q / u)) * u \<le> of_int c * 2 powi j"
    using u by (simp add: pos_le_divide_eq)
  then show ?thesis using assms(1) by (simp add: round_double_pos u_def)
qed

text \<open>Rounding keeps a quotient on its side of 10 unless it is within the last binary place below 10.\<close>

lemma round_double_ge_10:
  assumes "10 \<le> q"
  shows "10 \<le> round_double q"
proof -
  have q: "0 < q" using assms by simp
  have "(2::rat) powi 3 \<le> q" using assms by simp
  then have e3: "3 \<le> exponent q" by (rule exponent_ge[OF q])
  show ?thesis
  proof (cases "exponent q \<le> 53")
    case True
    then have "ulp_exponent q \<le> 1" by (simp add: ulp_exponent_def)
    moreover have "of_int 5 * 2 powi 1 \<le> q" using assms by simp
    ultimately have "of_int 5 * 2 powi 1 \<le> round_double q"
      by (rule round_double_ge_grid[OF q])
    then show ?thesis by simp
  next
    case False
    have "ulp_exponent q \<le> exponent q" using e3 by (simp add: ulp_exponent_def)
    moreover have "of_int 1 * 2 powi exponent q \<le> q" using exponent_bounds(1)[OF q] by simp
    ultimately have "of_int 1 * 2 powi exponent q \<le> round_double q"
      by (rule round_double_ge_grid[OF q])
    moreover have "(2::rat) powi 4 \<le> 2 powi exponent q"
      using False by (intro power_int_increasing) simp_all
    ultimately show ?thesis by simp
  qed
qed

lemma round_double_less_10:
  assumes "q \<le> 10 - 2 powi (- 49)"
  shows "round_double q < 10"
proof -
  consider "q \<le> 0" | "0 < q" "q < 8" | "8 \<le> q" by linarith
  then show ?thesis
  proof cases
    case 1
    have "0 \<le> round_double \<bar>q\<bar>" using round_double_abs[of q] by linarith
    then have "round_double q \<le> 0" using 1 round_double_minus[of q] by (simp add: abs_if split: if_splits)
    then show ?thesis by simp
  next
    case 2
    then have "q < 2 powi 3" by simp
    then have "exponent q < 3" by (rule exponent_less[OF 2(1)])
    then have "ulp_exponent q \<le> 3" by (simp add: ulp_exponent_def)
    moreover have "q \<le> of_int 1 * 2 powi 3" using 2 by simp
    ultimately have "round_double q \<le> of_int 1 * 2 powi 3"
      by (rule round_double_le_grid[OF 2(1)])
    then show ?thesis by simp
  next
    case 3
    then have q: "0 < q" by simp
    have "q < 2 powi 4" using assms by (simp add: power_int_minus)
    then have "exponent q < 4" by (rule exponent_less[OF q])
    then have k: "ulp_exponent q \<le> - 49" by (simp add: ulp_exponent_def)
    have "10 - 2 powi (- 49) = rat_of_int (10 * 2 ^ 49 - 1) * 2 powi (- 49)"
      by (simp add: power_int_minus)
    then have "q \<le> of_int (10 * 2 ^ 49 - 1) * 2 powi (- 49)" using assms by simp
    then have "round_double q \<le> of_int (10 * 2 ^ 49 - 1) * 2 powi (- 49)"
      by (rule round_double_le_grid[OF q k])
    also have "\<dots> < 10" by (simp add: power_int_minus)
    finally show ?thesis .
  qed
qed

lemma round_double_bounded:
  assumes "0 \<le> j" and "\<bar>q\<bar> \<le> 2 powi j"
  shows "\<bar>round_double q\<bar> \<le> 2 powi j"
proof (cases "q = 0")
  case True
  then show ?thesis by (simp add: round_double_def)
next
  case False
  then have q: "0 < \<bar>q\<bar>" by simp
  have "exponent \<bar>q\<bar> \<le> j" using assms(2) by (rule exponent_le[OF q])
  then have "ulp_exponent \<bar>q\<bar> \<le> j" using assms(1) by (simp add: ulp_exponent_def)
  moreover have "\<bar>q\<bar> \<le> of_int 1 * 2 powi j" using assms(2) by simp
  ultimately have "round_double \<bar>q\<bar> \<le> of_int 1 * 2 powi j"
    by (rule round_double_le_grid[OF q])
  then show ?thesis by (simp add: round_double_abs)
qed

lemma round_double_int:
  assumes "\<bar>a\<bar> < 2 ^ 53"
  shows "round_double (of_int a) = of_int a"
proof -
  have pos: "round_double (of_int n) = of_int n" if "0 < n" "n < 2 ^ 53" for n :: int
  proof -
    have q: "(0::rat) < of_int n" using that by simp
    have "rat_of_int n < of_int (2 ^ 53)" using that by (simp only: of_int_less_iff)
    then have "rat_of_int n < 2 powi 53" by simp
    then have "exponent (of_int n) < 53" by (rule exponent_less[OF q])
    then have k: "ulp_exponent (rat_of_int n) \<le> 0" by (simp add: ulp_exponent_def)
    have "rat_of_int n * 2 powi 0 \<le> round_double (of_int n)"
      by (rule round_double_ge_grid[OF q k]) simp
    moreover have "round_double (of_int n) \<le> rat_of_int n * 2 powi 0"
      by (rule round_double_le_grid[OF q k]) simp
    ultimately show ?thesis by simp
  qed
  consider "a = 0" | "0 < a" | "a < 0" by linarith
  then show ?thesis
  proof cases
    case 1
    then show ?thesis by (simp add: round_double_def)
  next
    case 2
    then show ?thesis using pos[of a] assms by simp
  next
    case 3
    then have "round_double (of_int (- a)) = of_int (- a)" using pos[of "- a"] assms by simp
    then show ?thesis by (simp add: round_double_minus)
  qed
qed

lemma round_half_even_nearest:
  assumes "\<bar>x - of_int k\<bar> < 1 / 2"
  shows "round_half_even x = k"
proof (cases "of_int k \<le> x")
  case True
  then have "\<lfloor>x\<rfloor> = k" using assms by (intro floor_unique) linarith+
  then show ?thesis using assms True by (simp add: round_half_even_def)
next
  case False
  then have f: "\<lfloor>x\<rfloor> = k - 1" using assms by (intro floor_unique; simp; linarith)
  have "1 / 2 < x - of_int (k - 1)" using assms False by simp
  then show ?thesis using f by (simp add: round_half_even_def)
qed

lemma rounding_example:
  "round_double (of_nat 99999999999999999 / of_int 10000000000000000) = 10"
proof -
  define q :: rat where "q = 99999999999999999 / 10000000000000000"
  have q: "0 < q" by (simp add: q_def)
  have "2 powi 3 \<le> q" by (simp add: q_def)
  then have "3 \<le> exponent q" by (rule exponent_ge[OF q])
  moreover have "q < 2 powi 4" by (simp add: q_def)
  then have "exponent q < 4" by (rule exponent_less[OF q])
  ultimately have k: "ulp_exponent q = - 49" by (simp add: ulp_exponent_def)
  have "\<bar>q / 2 powi (- 49) - of_int 5629499534213120\<bar> < 1 / 2"
    by (simp add: q_def power_int_minus)
  then have "round_half_even (q / 2 powi (- 49)) = 5629499534213120"
    by (rule round_half_even_nearest)
  then have "round_double q = 10"
    using q by (simp add: round_double_pos k power_int_minus)
  then show ?thesis by (simp add: q_def)
qed

subsection \<open>The two divisions\<close>

lemma quotient_abs_le:
  assumes "b \<noteq> 0"
  shows "\<bar>rat_of_int a / of_int b\<bar> \<le> \<bar>of_int a\<bar>"
proof -
  have "1 \<le> \<bar>b\<bar>" using assms by simp
  then have "(1::rat) \<le> \<bar>of_int b\<bar>" by (metis of_int_1_le_iff of_int_abs)
  then have "\<bar>rat_of_int a\<bar> / \<bar>of_int b\<bar> \<le> \<bar>of_int a\<bar> / 1"
    by (intro divide_left_mono) simp_all
  then show ?thesis by simp
qed

lemma py_truediv_rows:
  assumes "b \<noteq> 0" and "n < 2 ^ 63"
  shows "py_truediv (int n) b = Inr (Finite (round_double (of_nat n / of_int b)))"
proof -
  have "rat_of_int (int n) < of_int (2 ^ 63)" using assms(2) by (simp only: of_int_less_iff) simp
  then have "\<bar>rat_of_int (int n)\<bar> \<le> 2 powi 63" by simp
  then have "\<bar>rat_of_int (int n) / of_int b\<bar> \<le> 2 powi 63"
    using quotient_abs_le[OF assms(1), of "int n"] by linarith
  then have "\<bar>round_double (rat_of_int (int n) / of_int b)\<bar> \<le> 2 powi 63"
    by (intro round_double_bounded) simp_all
  moreover have "(2::rat) powi 63 < 2 ^ 1024" by simp
  ultimately have "\<not> 2 ^ 1024 \<le> \<bar>round_double (rat_of_int (int n) / of_int b)\<bar>" by linarith
  then show ?thesis using assms(1) by (simp add: py_truediv_def Let_def)
qed

lemma quotient_below_10:
  assumes "b \<noteq> 0" and "\<bar>b\<bar> \<le> 2 ^ 49" and "rat_of_int a / of_int b < 10"
  shows "rat_of_int a / of_int b \<le> 10 - 2 powi (- 49)"
proof -
  have step: "(2::rat) powi (- 49) \<le> 1 / \<bar>of_int b\<bar>"
  proof -
    have "rat_of_int \<bar>b\<bar> \<le> of_int (2 ^ 49)" using assms(2) by (simp only: of_int_le_iff)
    then have "\<bar>rat_of_int b\<bar> \<le> 2 ^ 49" by simp
    moreover have "(0::rat) < \<bar>of_int b\<bar>" using assms(1) by simp
    ultimately have "1 / (2 ^ 49) \<le> 1 / \<bar>rat_of_int b\<bar>" by (intro divide_left_mono) simp_all
    then show ?thesis by (simp add: power_int_minus inverse_eq_divide)
  qed
  show ?thesis
  proof (cases "0 < b")
    case True
    then have "rat_of_int a < 10 * of_int b" using assms(3) by (simp add: pos_divide_less_eq)
    then have "rat_of_int a < of_int (10 * b)" by simp
    then have "a < 10 * b" by (simp only: of_int_less_iff)
    then have "a \<le> 10 * b - 1" by simp
    then have "rat_of_int a \<le> of_int (10 * b - 1)" by (simp only: of_int_le_iff)
    then have "rat_of_int a / of_int b \<le> (10 * of_int b - 1) / of_int b"
      using True by (simp add: divide_right_mono)
    also have "\<dots> = 10 - 1 / \<bar>of_int b\<bar>" using True by (simp add: field_simps)
    finally show ?thesis using step by linarith
  next
    case False
    then have neg: "b < 0" using assms(1) by simp
    then have "10 * rat_of_int b < of_int a" using assms(3) by (simp add: neg_divide_less_eq)
    then have "rat_of_int (10 * b) < of_int a" by simp
    then have "10 * b < a" by (simp only: of_int_less_iff)
    then have "10 * b + 1 \<le> a" by simp
    then have "rat_of_int (10 * b + 1) \<le> of_int a" by (simp only: of_int_le_iff)
    then have "rat_of_int a / of_int b \<le> (10 * of_int b + 1) / of_int b"
      using neg by (simp add: divide_right_mono_neg)
    also have "\<dots> = 10 - 1 / \<bar>of_int b\<bar>" using neg by (simp add: field_simps)
    finally show ?thesis using step by linarith
  qed
qed

lemma round_double_ge_10_iff:
  assumes "b \<noteq> 0" and "\<bar>b\<bar> \<le> 2 ^ 49"
  shows "10 \<le> round_double (rat_of_int a / of_int b) \<longleftrightarrow> 10 \<le> rat_of_int a / of_int b"
proof
  assume "10 \<le> round_double (rat_of_int a / of_int b)"
  then show "10 \<le> rat_of_int a / of_int b"
    using round_double_less_10[OF quotient_below_10[OF assms, of a]] by force
next
  assume "10 \<le> rat_of_int a / of_int b"
  then show "10 \<le> round_double (rat_of_int a / of_int b)" by (rule round_double_ge_10)
qed

lemma np_truediv_exact:
  assumes "a < 2 ^ 53" and "b \<noteq> 0" and "\<bar>b\<bar> \<le> 2 ^ 49"
  shows "np_truediv a b = Inr (Finite (round_double (of_nat a / of_int b)))"
proof -
  have "\<bar>int a\<bar> < 2 ^ 53" using assms(1) by simp
  then have a: "round_double (of_int (int a)) = of_int (int a)" by (rule round_double_int)
  have "\<bar>b\<bar> < 2 ^ 53" using assms(3) by simp
  then have b: "round_double (of_int b) = of_int b" by (rule round_double_int)
  have "\<not> b < - (2 ^ 63)" "\<not> 2 ^ 63 \<le> b" using assms(3) by simp_all
  then show ?thesis using a b assms(2) by (simp add: np_truediv_def)
qed

text \<open>After the loop over a mapping with a last member, only that member counts.\<close>

lemma duration_loop_last:
  assumes "sampling_rate \<noteq> 0" and "\<forall>p\<in>set items. nrows (snd p) < 2 ^ 63"
    and "nrows df < 2 ^ 63"
  shows "duration_loop (items @ [(k, df)]) sampling_rate d =
           Inr (Some (Finite (round_double (of_nat (nrows df) / of_int sampling_rate))))"
  using assms(2)
proof (induction items arbitrary: d)
  case Nil
  then show ?case by (simp add: py_truediv_rows[OF assms(1,3)])
next
  case (Cons p items)
  obtain i t where p: "p = (i, t)" by (cases p)
  have "nrows t < 2 ^ 63" using Cons.prems p by simp
  then show ?case using Cons p by (simp add: py_truediv_rows[OF assms(1)])
qed

subsection \<open>The counts of the labels\<close>

text \<open>
  On an index of strings, \<^verbatim>\<open>value_counts()[0]\<close> is the largest number of rows of any
  label.
\<close>

lemma value_counts_present:
  "value_counts xs =
     sort_key (\<lambda>p. - int (snd p))
       (map (\<lambda>v. (v, count_list (dropna xs) v)) (remdups (dropna xs)))"
  by (simp add: value_counts_def Let_def)

lemma set_value_counts:
  "set (value_counts xs) = (\<lambda>v. (v, count_list (dropna xs) v)) ` set (dropna xs)"
  by (simp add: value_counts_present)

lemma value_counts_Nil_iff: "value_counts xs = [] \<longleftrightarrow> dropna xs = []"
  using set_value_counts[of xs] by (metis image_is_empty set_empty)

lemma value_counts_head:
  assumes "value_counts xs = (v, c) # rest"
  shows "v \<in> set (dropna xs)" and "c = count_list (dropna xs) v"
    and "count_list (dropna xs) w \<le> c"
proof -
  have "(v, c) \<in> (\<lambda>v. (v, count_list (dropna xs) v)) ` set (dropna xs)"
    using assms set_value_counts[of xs] by (metis list.set_intros(1))
  then show "v \<in> set (dropna xs)" and "c = count_list (dropna xs) v" by auto
  have "sorted (map (\<lambda>p. - int (snd p)) (value_counts xs))"
    unfolding value_counts_present by (rule sorted_sort_key)
  then have le: "\<forall>q\<in>set rest. - int c \<le> - int (snd q)"
    using assms by simp
  show "count_list (dropna xs) w \<le> c"
  proof (cases "w \<in> set (dropna xs)")
    case False
    then show ?thesis by (simp add: count_list_0_iff)
  next
    case True
    then have "(w, count_list (dropna xs) w) \<in> set (value_counts xs)"
      by (simp add: set_value_counts)
    then have "(w, count_list (dropna xs) w) = (v, c)
        \<or> (w, count_list (dropna xs) w) \<in> set rest"
      using assms by simp
    then show ?thesis using le by auto
  qed
qed

lemma value_counts_head_Max:
  assumes "value_counts xs = (v, c) # rest"
  shows "c = Max (count_list (dropna xs) ` set (dropna xs))"
proof -
  have "Max (count_list (dropna xs) ` set (dropna xs)) = c"
  proof (rule Max_eqI)
    show "finite (count_list (dropna xs) ` set (dropna xs))" by simp
    show "\<And>y. y \<in> count_list (dropna xs) ` set (dropna xs) \<Longrightarrow> y \<le> c"
      using value_counts_head(3)[OF assms] by auto
    show "c \<in> count_list (dropna xs) ` set (dropna xs)"
      using value_counts_head(1,2)[OF assms] by auto
  qed
  then show ?thesis by simp
qed

lemma series_getitem_0_strings:
  assumes "\<forall>v\<in>set (dropna xs). \<not> is_int v" and "dropna xs \<noteq> []"
  shows "series_getitem_0 (value_counts xs) =
           Inr (Max (count_list (dropna xs) ` set (dropna xs)))"
proof (cases "value_counts xs")
  case Nil
  then show ?thesis using assms(2) by (simp add: value_counts_Nil_iff)
next
  case (Cons p rest)
  obtain v c where p: "p = (v, c)" by (cases p)
  have c: "c = Max (count_list (dropna xs) ` set (dropna xs))"
    using value_counts_head_Max[of xs v c rest] Cons p by simp
  have "\<not> list_ex (\<lambda>p. is_int (fst p)) (value_counts xs)"
    using assms(1) by (auto simp: list_ex_iff set_value_counts)
  then show ?thesis using Cons p c by (simp add: series_getitem_0_def)
qed

lemma count_present_le_rows: "count_list (dropna (getcol df name)) v \<le> nrows df"
proof -
  have "count_list (dropna (getcol df name)) v \<le> length (dropna (getcol df name))"
    by (rule count_le_length)
  also have "\<dots> \<le> length (getcol df name)" by (simp add: dropna_def)
  also have "\<dots> = nrows df" by (simp add: getcol_def)
  finally show ?thesis .
qed

lemma auto_single_table_string_labels:
  assumes "lower method = ''auto''" and "sampling_rate \<noteq> 0" and "\<bar>sampling_rate\<bar> \<le> 2 ^ 49"
    and "''Label'' \<in> set (columns df)" and "nrows df < 2 ^ 53"
    and "\<forall>v\<in>set (dropna (getcol df ''Label'')). \<not> is_int v"
    and "dropna (getcol df ''Label'') \<noteq> []"
  shows "ppg_analyze ev iv (DataFrame df) sampling_rate method =
     (if (10::rat) \<le> of_nat (Max (count_list (dropna (getcol df ''Label''))
                                  ` set (dropna (getcol df ''Label''))))
                       / of_int sampling_rate
      then \<lparr>result = fst (iv (DataFrame df) sampling_rate),
            data_after = snd (iv (DataFrame df) sampling_rate),
            calls = [IntervalRelated (DataFrame df) sampling_rate]\<rparr>
      else \<lparr>result = fst (ev (DataFrame df)), data_after = snd (ev (DataFrame df)),
            calls = [EventRelated (DataFrame df)]\<rparr>)"
proof -
  define epoch_len where
    "epoch_len = Max (count_list (dropna (getcol df ''Label'')) ` set (dropna (getcol df ''Label'')))"
  have item: "series_getitem_0 (value_counts (getcol df ''Label'')) = Inr epoch_len"
    unfolding epoch_len_def by (rule series_getitem_0_strings[OF assms(6,7)])
  obtain v where "v \<in> set (dropna (getcol df ''Label''))" using assms(7) by (cases "dropna (getcol df ''Label'')") auto
  have "epoch_len \<in> count_list (dropna (getcol df ''Label'')) ` set (dropna (getcol df ''Label''))"
    unfolding epoch_len_def using assms(7) by (intro Max_in) simp_all
  then have "epoch_len \<le> nrows df" using count_present_le_rows[of df "''Label''"] by auto
  then have small: "epoch_len < 2 ^ 53" using assms(5) by simp
  have duration: "frame_duration df sampling_rate =
      Inr (Finite (round_double (of_nat epoch_len / of_int sampling_rate)))"
    using assms(4) by (simp add: frame_duration_def item np_truediv_exact[OF small assms(2,3)])
  have "ppg_analyze ev iv (DataFrame df) sampling_rate method =
     (if 10 \<le> round_double (of_nat epoch_len / of_int sampling_rate)
      then \<lparr>result = fst (iv (DataFrame df) sampling_rate),
            data_after = snd (iv (DataFrame df) sampling_rate),
            calls = [IntervalRelated (DataFrame df) sampling_rate]\<rparr>
      else \<lparr>result = fst (ev (DataFrame df)), data_after = snd (ev (DataFrame df)),
            calls = [EventRelated (DataFrame df)]\<rparr>)"
    using assms(1) auto_not_event auto_not_interval
    by (simp add: ppg_analyze_def Let_def duration outcome_defs split: prod.splits)
  then show ?thesis
    using round_double_ge_10_iff[OF assms(2,3), of "int epoch_len"]
    by (simp add: epoch_len_def)
qed

text \<open>What both loops and the duration of a single table read of the data.\<close>

lemma colnames_loop_read:
  "map (\<lambda>(i, df). (columns df, nrows df)) items = map (\<lambda>(i, df). (columns df, nrows df)) items'
   \<Longrightarrow> colnames_loop items c = colnames_loop items' c"
proof (induction items arbitrary: items' c)
  case Nil
  then show ?case by simp
next
  case (Cons p items)
  then obtain p' rest where items': "items' = p' # rest" by (cases items') auto
  obtain i df where p: "p = (i, df)" by (cases p)
  obtain i' df' where p': "p' = (i', df')" by (cases p')
  show ?case using Cons.prems Cons.IH[of rest] by (simp add: items' p p')
qed

lemma duration_loop_read:
  "map (\<lambda>(i, df). (columns df, nrows df)) items = map (\<lambda>(i, df). (columns df, nrows df)) items'
   \<Longrightarrow> duration_loop items sampling_rate d = duration_loop items' sampling_rate d"
proof (induction items arbitrary: items' d)
  case Nil
  then show ?case by simp
next
  case (Cons p items)
  then obtain p' rest where items': "items' = p' # rest" by (cases items') auto
  obtain i df where p: "p = (i, df)" by (cases p)
  obtain i' df' where p': "p' = (i', df')" by (cases p')
  show ?case using Cons.prems Cons.IH[of rest]
    by (simp add: items' p p' split: sum.splits)
qed

lemma frame_duration_read:
  assumes "columns df = columns df'" and "nrows df = nrows df'"
    and "''Label'' \<in> set (columns df) \<Longrightarrow> getcol df ''Label'' = getcol df' ''Label''"
  shows "frame_duration df sampling_rate = frame_duration df' sampling_rate"
  using assms by (simp add: frame_duration_def)

lemma routing_by_data_read:
  assumes "data_read data = data_read data'"
  shows "(calls (ppg_analyze ev iv data sampling_rate method) = []
      \<and> calls (ppg_analyze ev iv data' sampling_rate method) = []
      \<and> result (ppg_analyze ev iv data sampling_rate method) =
          result (ppg_analyze ev iv data' sampling_rate method))
   \<or> (calls (ppg_analyze ev iv data sampling_rate method) = [EventRelated data]
      \<and> calls (ppg_analyze ev iv data' sampling_rate method) = [EventRelated data'])
   \<or> (calls (ppg_analyze ev iv data sampling_rate method) = [IntervalRelated data sampling_rate]
      \<and> calls (ppg_analyze ev iv data' sampling_rate method) =
          [IntervalRelated data' sampling_rate])"
proof (cases data)
  case (Dict items)
  then obtain items' where d': "data' = Dict items'"
    and eq: "map (\<lambda>(i, df). (columns df, nrows df)) items =
             map (\<lambda>(i, df). (columns df, nrows df)) items'"
    using assms by (cases data') (auto simp: data_read_def)
  show ?thesis
    using colnames_loop_read[OF eq, of None]
      duration_loop_read[OF eq, of sampling_rate None]
    by (simp add: Dict d' ppg_analyze_def Let_def outcome_defs event_colnames_def
        split: prod.splits option.splits sum.splits)
next
  case (DataFrame df)
  then obtain df' where d': "data' = DataFrame df'"
    and eq: "columns df = columns df'" "nrows df = nrows df'"
      "''Label'' \<in> set (columns df) \<Longrightarrow> getcol df ''Label'' = getcol df' ''Label''"
    using assms by (cases data') (auto simp: data_read_def split: if_splits)
  show ?thesis
    using frame_duration_read[OF eq, of sampling_rate] eq(1)
    by (simp add: DataFrame d' ppg_analyze_def Let_def outcome_defs event_colnames_def
        split: prod.splits option.splits sum.splits)
next
  case Other
  then have d': "data' = Other"
    using assms by (cases data') (auto simp: data_read_def)
  show ?thesis
    by (simp add: Other d' ppg_analyze_def Let_def outcome_defs event_colnames_def
        split: prod.splits)
qed

text \<open>
  No branch of the function assigns to \<^verbatim>\<open>data\<close> or writes into it: the object is as it was
  unless an extractor ran, and then that extractor received it as it was.
\<close>

lemma data_only_changed_by_extractor:
  "(calls (ppg_analyze ev iv data sampling_rate method) = []
      \<and> data_after (ppg_analyze ev iv data sampling_rate method) = data)
   \<or> (calls (ppg_analyze ev iv data sampling_rate method) = [EventRelated data]
      \<and> data_after (ppg_analyze ev iv data sampling_rate method) = snd (ev data))
   \<or> (calls (ppg_analyze ev iv data sampling_rate method) = [IntervalRelated data sampling_rate]
      \<and> data_after (ppg_analyze ev iv data sampling_rate method) = snd (iv data sampling_rate))"
  by (simp add: ppg_analyze_def Let_def outcome_defs
      split: prod.splits option.splits sum.splits pydata.splits)

text \<open>Two tables of fourteen rows in automatic mode at 1 Hz.\<close>

lemma getcol_epochs_14:
  "getcol (epochs_table 14) ''Label'' =
     [PyStr ''1'', PyStr ''1'', PyStr ''1'', PyStr ''2'', PyStr ''2'', PyStr ''2'', PyStr ''2'',
      PyStr ''2'', PyStr ''2'', PyStr ''2'', PyStr ''2'', PyStr ''2'', PyStr ''2'', PyStr ''2'']"
  by (simp add: getcol_def epochs_table_def upt_rec)

lemma getcol_halved_14:
  "getcol (halved_table 14) ''Label'' =
     [PyStr ''1'', PyStr ''1'', PyStr ''1'', PyStr ''1'', PyStr ''1'', PyStr ''1'', PyStr ''1'',
      PyStr ''2'', PyStr ''2'', PyStr ''2'', PyStr ''2'', PyStr ''2'', PyStr ''2'', PyStr ''2'']"
  by (simp add: getcol_def halved_table_def upt_rec)

lemma auto_epochs_14:
  "ppg_analyze ev iv (DataFrame (epochs_table 14)) 1 ''auto'' =
   \<lparr>result = fst (iv (DataFrame (epochs_table 14)) 1),
    data_after = snd (iv (DataFrame (epochs_table 14)) 1),
    calls = [IntervalRelated (DataFrame (epochs_table 14)) 1]\<rparr>"
proof -
  have "lower ''auto'' = ''auto''" by (simp add: lower_eval)
  moreover have "''Label'' \<in> set (columns (epochs_table 14))" "nrows (epochs_table 14) < 2 ^ 53"
    by (simp_all add: epochs_table_def)
  ultimately show ?thesis
    using auto_single_table_string_labels[of "''auto''" 1 "epochs_table 14" ev iv]
    by (simp add: getcol_epochs_14 dropna_def)
qed

lemma auto_halved_14:
  "ppg_analyze ev iv (DataFrame (halved_table 14)) 1 ''auto'' =
   \<lparr>result = fst (ev (DataFrame (halved_table 14))),
    data_after = snd (ev (DataFrame (halved_table 14))),
    calls = [EventRelated (DataFrame (halved_table 14))]\<rparr>"
proof -
  have "lower ''auto'' = ''auto''" by (simp add: lower_eval)
  moreover have "''Label'' \<in> set (columns (halved_table 14))" "nrows (halved_table 14) < 2 ^ 53"
    by (simp_all add: halved_table_def)
  ultimately show ?thesis
    using auto_single_table_string_labels[of "''auto''" 1 "halved_table 14" ev iv]
    by (simp add: getcol_halved_14 dropna_def)
qed

subsection \<open>Automatic mode on a single table without a label column\<close>

text \<open>
  Claim C1. For a single table that has no \<^verbatim>\<open>Label\<close> column, \<^verbatim>\<open>method="auto"\<close> takes the
  number of rows divided by the sampling rate as the duration, and returns what the
  interval-related extractor gives for the data and the sampling rate if that duration is
  at least 10, and what the event-related extractor gives for the data otherwise. The
  threshold is the constant 10. The duration is the double nearest to the quotient; for a
  sampling rate of at most \<open>2 ^ 49\<close> in absolute value the rounding does not move the
  quotient across 10. The sampling rate is not zero, and the number of rows is below
  \<open>2 ^ 63\<close>, as every length in Python is.
\<close>

theorem auto_single_table_without_label:
  assumes "lower method = ''auto''" and "sampling_rate \<noteq> 0"
    and "''Label'' \<notin> set (columns df)" and "nrows df < 2 ^ 63"
  shows "ppg_analyze ev iv (DataFrame df) sampling_rate method =
     (if 10 \<le> round_double (of_nat (nrows df) / of_int sampling_rate)
      then \<lparr>result = fst (iv (DataFrame df) sampling_rate),
            data_after = snd (iv (DataFrame df) sampling_rate),
            calls = [IntervalRelated (DataFrame df) sampling_rate]\<rparr>
      else \<lparr>result = fst (ev (DataFrame df)), data_after = snd (ev (DataFrame df)),
            calls = [EventRelated (DataFrame df)]\<rparr>)
   \<and> (\<bar>sampling_rate\<bar> \<le> 2 ^ 49 \<longrightarrow>
       ppg_analyze ev iv (DataFrame df) sampling_rate method =
         (if (10::rat) \<le> of_nat (nrows df) / of_int sampling_rate
          then \<lparr>result = fst (iv (DataFrame df) sampling_rate),
                data_after = snd (iv (DataFrame df) sampling_rate),
                calls = [IntervalRelated (DataFrame df) sampling_rate]\<rparr>
          else \<lparr>result = fst (ev (DataFrame df)), data_after = snd (ev (DataFrame df)),
                calls = [EventRelated (DataFrame df)]\<rparr>))"
proof -
  have rounded: "ppg_analyze ev iv (DataFrame df) sampling_rate method =
     (if 10 \<le> round_double (of_nat (nrows df) / of_int sampling_rate)
      then \<lparr>result = fst (iv (DataFrame df) sampling_rate),
            data_after = snd (iv (DataFrame df) sampling_rate),
            calls = [IntervalRelated (DataFrame df) sampling_rate]\<rparr>
      else \<lparr>result = fst (ev (DataFrame df)), data_after = snd (ev (DataFrame df)),
            calls = [EventRelated (DataFrame df)]\<rparr>)"
    using assms(1,3) auto_not_event auto_not_interval
    by (simp add: ppg_analyze_def Let_def frame_duration_def py_truediv_rows[OF assms(2,4)]
        outcome_defs split: prod.splits)
  show ?thesis
    using rounded round_double_ge_10_iff[OF assms(2), of "int (nrows df)"] by simp
qed

text \<open>
  A table of 20000 rows at 1000 Hz lasts 20 seconds and goes to the interval-related
  extractor; one of 9999 rows goes to the event-related extractor. The quotient of
  99999999999999999 rows by 10000000000000000 Hz is below 10 and its double is 10: the
  table goes to the interval-related extractor.
\<close>

theorem auto_single_table_without_label_witness:
  "lower ''auto'' = ''auto'' \<and> (1000::int) \<noteq> 0 \<and> ''Label'' \<notin> set (columns (signals 20000))
   \<and> nrows (signals 20000) < 2 ^ 63 \<and> \<bar>1000::int\<bar> \<le> 2 ^ 49
   \<and> ppg_analyze example_eventrelated example_intervalrelated
        (DataFrame (signals 20000)) 1000 ''auto'' =
      \<lparr>result = Inr ''interval-related features'', data_after = DataFrame (signals 20000),
       calls = [IntervalRelated (DataFrame (signals 20000)) 1000]\<rparr>
   \<and> ppg_analyze example_eventrelated example_intervalrelated
        (DataFrame (signals 9999)) 1000 ''Auto'' =
      \<lparr>result = Inr ''event-related features'', data_after = DataFrame (signals 9999),
       calls = [EventRelated (DataFrame (signals 9999))]\<rparr>
   \<and> ppg_analyze example_eventrelated example_intervalrelated
        (DataFrame (signals 99999999999999999)) 10000000000000000 ''auto'' =
      \<lparr>result = Inr ''interval-related features'',
       data_after = DataFrame (signals 99999999999999999),
       calls = [IntervalRelated (DataFrame (signals 99999999999999999)) 10000000000000000]\<rparr>"
proof -
  have hz: "ppg_analyze example_eventrelated example_intervalrelated
        (DataFrame (signals 20000)) 1000 ''auto'' =
      \<lparr>result = Inr ''interval-related features'', data_after = DataFrame (signals 20000),
       calls = [IntervalRelated (DataFrame (signals 20000)) 1000]\<rparr>"
    using auto_single_table_without_label
        [of "''auto''" 1000 "signals 20000" example_eventrelated example_intervalrelated,
          THEN conjunct2]
    by (simp add: lower_eval example_defs)
  have short: "ppg_analyze example_eventrelated example_intervalrelated
        (DataFrame (signals 9999)) 1000 ''Auto'' =
      \<lparr>result = Inr ''event-related features'', data_after = DataFrame (signals 9999),
       calls = [EventRelated (DataFrame (signals 9999))]\<rparr>"
    using auto_single_table_without_label
        [of "''Auto''" 1000 "signals 9999" example_eventrelated example_intervalrelated,
          THEN conjunct2]
    by (simp add: lower_eval example_defs)
  have rounded: "ppg_analyze example_eventrelated example_intervalrelated
        (DataFrame (signals 99999999999999999)) 10000000000000000 ''auto'' =
      \<lparr>result = Inr ''interval-related features'',
       data_after = DataFrame (signals 99999999999999999),
       calls = [IntervalRelated (DataFrame (signals 99999999999999999)) 10000000000000000]\<rparr>"
    using auto_single_table_without_label
        [of "''auto''" 10000000000000000 "signals 99999999999999999"
           example_eventrelated example_intervalrelated, THEN conjunct1]
      rounding_example
    by (simp add: lower_eval example_defs)
  have cols: "''Label'' \<notin> set (columns (signals 20000))" by (simp add: signals_def)
  have rows: "nrows (signals 20000) < 2 ^ 63" by (simp add: signals_def)
  have low: "lower ''auto'' = ''auto''" by (simp add: lower_eval)
  show ?thesis using cols rows low hz short rounded by simp
qed

subsection \<open>Event-related mode on an empty mapping\<close>

text \<open>
  Claim C2. Event-related mode on data in which no column name contains \<^verbatim>\<open>Label\<close> is to
  fail with the \<^verbatim>\<open>ValueError\<close> that names the function. An empty mapping has no column name
  at all, and there the function fails earlier, on the unbound \<^verbatim>\<open>colnames\<close>.
\<close>

theorem event_related_empty_mapping:
  "result (ppg_analyze ev iv (Dict []) sampling_rate ''event-related'') =
     Inl (UnboundLocalError ''colnames'')
   \<and> result (ppg_analyze ev iv (Dict []) sampling_rate ''event-related'') \<noteq>
     Inl (ValueError mismatch_message)"
  by (simp add: ppg_analyze_def lower_eval event_methods_def event_colnames_def raise_def)

subsection \<open>Interval-related mode\<close>

text \<open>
  Claim C3. For every data and sampling rate, a method of the interval-related group, in any
  letter case, gives exactly what the interval-related extractor gives for the data and the
  sampling rate: nothing is checked before the call and nothing is done to its result.
\<close>

theorem interval_related_delegates:
  assumes "lower method \<in> set interval_methods"
  shows "ppg_analyze ev iv data sampling_rate method =
     \<lparr>result = fst (iv data sampling_rate), data_after = snd (iv data sampling_rate),
      calls = [IntervalRelated data sampling_rate]\<rparr>"
  using assms interval_not_event[OF assms]
  by (simp add: ppg_analyze_def Let_def outcome_defs split: prod.splits)

theorem interval_related_delegates_witness:
  "lower ''Resting-State'' \<in> set interval_methods
   \<and> ppg_analyze example_eventrelated example_intervalrelated Other 0 ''Resting-State'' =
      \<lparr>result = Inr ''interval-related features'', data_after = Other,
       calls = [IntervalRelated Other 0]\<rparr>"
  using interval_related_delegates
      [of "''Resting-State''" example_eventrelated example_intervalrelated Other 0]
  by (simp add: lower_eval example_defs interval_methods_def)

subsection \<open>Event-related mode on data with a label column\<close>

text \<open>
  Claim C4, amended. For a single table with a column whose name contains \<^verbatim>\<open>Label\<close>, and
  for a mapping whose last member in iteration order has such a column, a method of the
  event-related group gives exactly what the event-related extractor gives for the data
  alone; the sampling rate is not passed on and has no influence on the outcome.
\<close>

theorem event_related_delegates:
  assumes "lower method \<in> set event_methods"
    and "data = DataFrame df \<or> data = Dict (items @ [(k, df)])"
    and "\<exists>c\<in>set (columns df). str_contains ''Label'' c"
  shows "ppg_analyze ev iv data sampling_rate method =
           \<lparr>result = fst (ev data), data_after = snd (ev data), calls = [EventRelated data]\<rparr>
         \<and> ppg_analyze ev iv data sampling_rate' method =
             ppg_analyze ev iv data sampling_rate method"
proof -
  have "event_colnames data = Some (columns df)"
    using assms(2) by (auto simp: event_colnames_def colnames_loop_last)
  then show ?thesis
    using assms(3) event_branch[OF assms(1), of data "columns df" ev iv] by simp
qed

theorem event_related_delegates_witness:
  "lower ''Epoch'' \<in> set event_methods
   \<and> (Dict [(1, signals 2000), (2, marked_table 2000)] = DataFrame (marked_table 2000)
      \<or> Dict [(1, signals 2000), (2, marked_table 2000)] =
          Dict ([(1, signals 2000)] @ [(2, marked_table 2000)]))
   \<and> (\<exists>c\<in>set (columns (marked_table 2000)). str_contains ''Label'' c)
   \<and> ppg_analyze example_eventrelated example_intervalrelated
        (Dict [(1, signals 2000), (2, marked_table 2000)]) 1000 ''Epoch'' =
      \<lparr>result = Inr ''event-related features'',
       data_after = Dict [(1, signals 2000), (2, marked_table 2000)],
       calls = [EventRelated (Dict [(1, signals 2000), (2, marked_table 2000)])]\<rparr>"
  using event_related_delegates
      [of "''Epoch''" "Dict [(1, signals 2000), (2, marked_table 2000)]" "marked_table 2000"
         "[(1, signals 2000)]" 2 example_eventrelated example_intervalrelated 1000]
  by (simp add: lower_eval event_methods_def example_eventrelated_def)
     (simp add: marked_table_def startswith_def)

text \<open>
  As stated, for every input whose columns include a name containing \<^verbatim>\<open>Label\<close>, the claim
  fails: the first member of this mapping has a \<^verbatim>\<open>Label\<close> column, the last one has not,
  and the call ends with the \<^verbatim>\<open>ValueError\<close> without calling the extractor.
\<close>

theorem event_related_any_label_column_counterexample:
  "lower ''event-related'' \<in> set event_methods
   \<and> str_contains ''Label'' ''Label''
   \<and> ''Label'' \<in> set (columns (epochs_table 2000))
   \<and> result (ppg_analyze example_eventrelated example_intervalrelated
        (Dict [(1, epochs_table 2000), (2, signals 2000)]) 1000 ''event-related'')
       = Inl (ValueError mismatch_message)
   \<and> calls (ppg_analyze example_eventrelated example_intervalrelated
        (Dict [(1, epochs_table 2000), (2, signals 2000)]) 1000 ''event-related'') = []
   \<and> fst (example_eventrelated (Dict [(1, epochs_table 2000), (2, signals 2000)]))
       = Inr ''event-related features''
   \<and> result (ppg_analyze example_eventrelated example_intervalrelated
        (Dict [(1, epochs_table 2000), (2, signals 2000)]) 1000 ''event-related'')
       \<noteq> fst (example_eventrelated (Dict [(1, epochs_table 2000), (2, signals 2000)]))"
  by (simp add: lower_eval event_methods_def ppg_analyze_def event_colnames_def
      example_defs raise_def startswith_def)

subsection \<open>Automatic mode on a single table with a label column\<close>

lemma getcol_numbered_12:
  "getcol (numbered_table 12) ''Label'' =
     [PyInt 0, PyInt 1, PyInt 1, PyInt 1, PyInt 1, PyInt 1, PyInt 1, PyInt 1, PyInt 1,
      PyInt 1, PyInt 1, PyInt 1]"
  by (simp add: getcol_def numbered_table_def upt_rec)

lemma value_counts_numbered_12:
  "value_counts (getcol (numbered_table 12) ''Label'') = [(PyInt 1, 11), (PyInt 0, 1)]"
  by (simp add: getcol_numbered_12 value_counts_def dropna_def)

text \<open>
  Claim C5. For a single table that has a \<^verbatim>\<open>Label\<close> column, \<^verbatim>\<open>method="auto"\<close> is to take
  as the duration the number of rows of the most frequent label, divided by the sampling
  rate. On integer labels \<^verbatim>\<open>value_counts()[0]\<close> is the count of the label 0 instead: of
  twelve rows, one of epoch 0 and eleven of epoch 1, the function takes one row, and at
  1 Hz it calls the event-related extractor, although the most frequent label has 11 rows
  and 11 seconds are at least 10.
\<close>

theorem auto_numbered_labels:
  "calls (ppg_analyze ev iv (DataFrame (numbered_table 12)) 1 ''auto'') =
     [EventRelated (DataFrame (numbered_table 12))]
   \<and> count_list (getcol (numbered_table 12) ''Label'') (PyInt 1) = 11
   \<and> Max (count_list (getcol (numbered_table 12) ''Label'')
             ` set (getcol (numbered_table 12) ''Label'')) = 11
   \<and> (10::rat) \<le> of_nat 11 / of_int 1"
proof -
  have item: "series_getitem_0 (value_counts (getcol (numbered_table 12) ''Label'')) = Inr 1"
    by (simp add: value_counts_numbered_12 series_getitem_0_def)
  have "np_truediv 1 1 = Inr (Finite (round_double (of_nat 1 / of_int 1)))"
    by (rule np_truediv_exact) simp_all
  moreover have "''Label'' \<in> set (columns (numbered_table 12))"
    by (simp add: numbered_table_def)
  ultimately have duration:
    "frame_duration (numbered_table 12) 1 = Inr (Finite (round_double 1))"
    by (simp add: frame_duration_def item)
  have "\<not> 10 \<le> round_double 1"
    using round_double_ge_10_iff[of 1 1] by simp
  then have "calls (ppg_analyze ev iv (DataFrame (numbered_table 12)) 1 ''auto'') =
     [EventRelated (DataFrame (numbered_table 12))]"
    using auto_not_event auto_not_interval
    by (simp add: ppg_analyze_def lower_eval duration outcome_defs split: prod.splits)
  then show ?thesis by (simp add: getcol_numbered_12)
qed

subsection \<open>Automatic mode on a mapping\<close>

text \<open>
  Claim C6. For a mapping of tables, \<^verbatim>\<open>method="auto"\<close> decides for the whole mapping from
  the duration of the last member in iteration order alone, its number of rows divided by
  the sampling rate: the interval-related extractor if and only if that duration is at
  least 10, the event-related extractor otherwise, whatever the other members are. The
  duration is the double nearest to the quotient; for a sampling rate of at most \<open>2 ^ 49\<close>
  in absolute value the rounding does not move the quotient across 10. The mapping has a
  last member, the sampling rate is not zero, and every number of rows is below \<open>2 ^ 63\<close>,
  as every length in Python is.
\<close>

theorem auto_mapping_last_member:
  assumes "lower method = ''auto''" and "sampling_rate \<noteq> 0"
    and "\<forall>p\<in>set items. nrows (snd p) < 2 ^ 63" and "nrows df < 2 ^ 63"
  shows "ppg_analyze ev iv (Dict (items @ [(k, df)])) sampling_rate method =
     (if 10 \<le> round_double (of_nat (nrows df) / of_int sampling_rate)
      then \<lparr>result = fst (iv (Dict (items @ [(k, df)])) sampling_rate),
            data_after = snd (iv (Dict (items @ [(k, df)])) sampling_rate),
            calls = [IntervalRelated (Dict (items @ [(k, df)])) sampling_rate]\<rparr>
      else \<lparr>result = fst (ev (Dict (items @ [(k, df)]))),
            data_after = snd (ev (Dict (items @ [(k, df)]))),
            calls = [EventRelated (Dict (items @ [(k, df)]))]\<rparr>)
   \<and> (\<bar>sampling_rate\<bar> \<le> 2 ^ 49 \<longrightarrow>
       ppg_analyze ev iv (Dict (items @ [(k, df)])) sampling_rate method =
         (if (10::rat) \<le> of_nat (nrows df) / of_int sampling_rate
          then \<lparr>result = fst (iv (Dict (items @ [(k, df)])) sampling_rate),
                data_after = snd (iv (Dict (items @ [(k, df)])) sampling_rate),
                calls = [IntervalRelated (Dict (items @ [(k, df)])) sampling_rate]\<rparr>
          else \<lparr>result = fst (ev (Dict (items @ [(k, df)]))),
                data_after = snd (ev (Dict (items @ [(k, df)]))),
                calls = [EventRelated (Dict (items @ [(k, df)]))]\<rparr>))"
proof -
  have rounded: "ppg_analyze ev iv (Dict (items @ [(k, df)])) sampling_rate method =
     (if 10 \<le> round_double (of_nat (nrows df) / of_int sampling_rate)
      then \<lparr>result = fst (iv (Dict (items @ [(k, df)])) sampling_rate),
            data_after = snd (iv (Dict (items @ [(k, df)])) sampling_rate),
            calls = [IntervalRelated (Dict (items @ [(k, df)])) sampling_rate]\<rparr>
      else \<lparr>result = fst (ev (Dict (items @ [(k, df)]))),
            data_after = snd (ev (Dict (items @ [(k, df)]))),
            calls = [EventRelated (Dict (items @ [(k, df)]))]\<rparr>)"
    using assms(1) auto_not_event auto_not_interval
    by (simp add: ppg_analyze_def Let_def outcome_defs duration_loop_last[OF assms(2,3,4)]
        split: prod.splits)
  show ?thesis
    using rounded round_double_ge_10_iff[OF assms(2), of "int (nrows df)"] by simp
qed

text \<open>
  Three epochs of 2000 rows at 1000 Hz go to the event-related extractor; two tables of 20
  rows followed by one of 20000 rows go to the interval-related extractor.
\<close>

theorem auto_mapping_last_member_witness:
  "lower ''auto'' = ''auto'' \<and> (1000::int) \<noteq> 0 \<and> \<bar>1000::int\<bar> \<le> 2 ^ 49
   \<and> nrows (epochs_table 2000) < 2 ^ 63 \<and> nrows (signals 20) < 2 ^ 63
   \<and> nrows (signals 20000) < 2 ^ 63
   \<and> ppg_analyze example_eventrelated example_intervalrelated
        (Dict ([(1, epochs_table 2000), (2, epochs_table 2000)] @ [(3, epochs_table 2000)]))
        1000 ''auto'' =
      \<lparr>result = Inr ''event-related features'',
       data_after =
         Dict ([(1, epochs_table 2000), (2, epochs_table 2000)] @ [(3, epochs_table 2000)]),
       calls = [EventRelated
         (Dict ([(1, epochs_table 2000), (2, epochs_table 2000)] @ [(3, epochs_table 2000)]))]\<rparr>
   \<and> ppg_analyze example_eventrelated example_intervalrelated
        (Dict ([(1, signals 20), (2, signals 20)] @ [(3, signals 20000)]))
        1000 ''auto'' =
      \<lparr>result = Inr ''interval-related features'',
       data_after = Dict ([(1, signals 20), (2, signals 20)] @ [(3, signals 20000)]),
       calls = [IntervalRelated
         (Dict ([(1, signals 20), (2, signals 20)] @ [(3, signals 20000)])) 1000]\<rparr>"
proof -
  have low: "lower ''auto'' = ''auto''" by (simp add: lower_eval)
  have rate: "(1000::int) \<noteq> 0" and bound: "\<bar>1000::int\<bar> \<le> 2 ^ 49" by simp_all
  have e_items: "\<forall>p\<in>set [(1::nat, epochs_table 2000), (2, epochs_table 2000)].
      nrows (snd p) < 2 ^ 63"
    and e_last: "nrows (epochs_table 2000) < 2 ^ 63"
    by (simp_all add: epochs_table_def)
  have s_items: "\<forall>p\<in>set [(1::nat, signals 20), (2, signals 20)]. nrows (snd p) < 2 ^ 63"
    and s_last: "nrows (signals 20000) < 2 ^ 63"
    by (simp_all add: signals_def)
  have short: "(10::rat) \<le> of_nat (nrows (epochs_table 2000)) / of_int 1000 \<longleftrightarrow> False"
    by (simp add: epochs_table_def)
  have long: "(10::rat) \<le> of_nat (nrows (signals 20000)) / of_int 1000 \<longleftrightarrow> True"
    by (simp add: signals_def)
  have epochs: "ppg_analyze example_eventrelated example_intervalrelated
        (Dict ([(1, epochs_table 2000), (2, epochs_table 2000)] @ [(3, epochs_table 2000)]))
        1000 ''auto'' =
      \<lparr>result = Inr ''event-related features'',
       data_after =
         Dict ([(1, epochs_table 2000), (2, epochs_table 2000)] @ [(3, epochs_table 2000)]),
       calls = [EventRelated
         (Dict ([(1, epochs_table 2000), (2, epochs_table 2000)] @ [(3, epochs_table 2000)]))]\<rparr>"
    using auto_mapping_last_member[OF low rate e_items e_last, THEN conjunct2, rule_format,
        OF bound, of example_eventrelated example_intervalrelated 3]
    unfolding short by (simp add: example_eventrelated_def)
  have periods: "ppg_analyze example_eventrelated example_intervalrelated
        (Dict ([(1, signals 20), (2, signals 20)] @ [(3, signals 20000)]))
        1000 ''auto'' =
      \<lparr>result = Inr ''interval-related features'',
       data_after = Dict ([(1, signals 20), (2, signals 20)] @ [(3, signals 20000)]),
       calls = [IntervalRelated
         (Dict ([(1, signals 20), (2, signals 20)] @ [(3, signals 20000)])) 1000]\<rparr>"
    using auto_mapping_last_member[OF low rate s_items s_last, THEN conjunct2, rule_format,
        OF bound, of example_eventrelated example_intervalrelated 3]
    unfolding long by (simp add: example_intervalrelated_def)
  have s_first: "nrows (signals 20) < 2 ^ 63" by (simp add: signals_def)
  show ?thesis
    using low rate bound e_last s_first s_last epochs periods by blast
qed

subsection \<open>Unrecognised methods\<close>

text \<open>
  Claim C7. For a method that, lower-cased, is in none of the three groups, no features are
  computed: no extractor is called, and the \<^verbatim>\<open>return\<close> reads the local variable
  \<^verbatim>\<open>features\<close> that was never bound.
\<close>

theorem unrecognized_method:
  assumes "lower method \<notin> set event_methods \<union> set interval_methods \<union> {''auto''}"
  shows "ppg_analyze ev iv data sampling_rate method =
     \<lparr>result = Inl (UnboundLocalError ''features''), data_after = data, calls = []\<rparr>"
  using assms by (simp add: ppg_analyze_def Let_def raise_def)

theorem unrecognized_method_witness:
  "lower ''Automatic'' \<notin> set event_methods \<union> set interval_methods \<union> {''auto''}
   \<and> ppg_analyze example_eventrelated example_intervalrelated
        (DataFrame (signals 20000)) 1000 ''Automatic'' =
      \<lparr>result = Inl (UnboundLocalError ''features''), data_after = DataFrame (signals 20000),
       calls = []\<rparr>"
  using unrecognized_method
      [of "''Automatic''" example_eventrelated example_intervalrelated
         "DataFrame (signals 20000)" 1000]
  by (simp add: lower_eval event_methods_def interval_methods_def)

subsection \<open>The input data is only read\<close>

text \<open>
  Claim C8, amended. The function never mutates its \<^verbatim>\<open>data\<close> argument: either no
  extractor is called and the data is afterwards as it was passed in, or one extractor is
  called, on the data exactly as it was passed in, and the data is afterwards as that
  extractor left it. For its decision the function reads only the column names, the row
  counts and, of a single table with a \<^verbatim>\<open>Label\<close> column, the values of that column: two
  inputs that agree on these fail alike or go to the same extractor.
\<close>

theorem input_data_not_mutated:
  "((calls (ppg_analyze ev iv data sampling_rate method) = []
      \<and> data_after (ppg_analyze ev iv data sampling_rate method) = data)
    \<or> (calls (ppg_analyze ev iv data sampling_rate method) = [EventRelated data]
      \<and> data_after (ppg_analyze ev iv data sampling_rate method) = snd (ev data))
    \<or> (calls (ppg_analyze ev iv data sampling_rate method) = [IntervalRelated data sampling_rate]
      \<and> data_after (ppg_analyze ev iv data sampling_rate method) = snd (iv data sampling_rate)))
   \<and> (data_read data = data_read data' \<longrightarrow>
        (calls (ppg_analyze ev iv data sampling_rate method) = []
          \<and> calls (ppg_analyze ev iv data' sampling_rate method) = []
          \<and> result (ppg_analyze ev iv data sampling_rate method) =
              result (ppg_analyze ev iv data' sampling_rate method))
      \<or> (calls (ppg_analyze ev iv data sampling_rate method) = [EventRelated data]
          \<and> calls (ppg_analyze ev iv data' sampling_rate method) = [EventRelated data'])
      \<or> (calls (ppg_analyze ev iv data sampling_rate method) = [IntervalRelated data sampling_rate]
          \<and> calls (ppg_analyze ev iv data' sampling_rate method) =
              [IntervalRelated data' sampling_rate]))"
  using data_only_changed_by_extractor[of ev iv data sampling_rate "method"]
    routing_by_data_read[of data data' ev iv sampling_rate "method"]
  by blast

text \<open>
  Two tables with the same epochs and different signal values both go to the
  interval-related extractor, and the first is afterwards what it was. An extractor that
  empties the object is given the table as it was passed in, and the object is afterwards
  empty.
\<close>

theorem input_data_not_mutated_witness:
  "data_read (DataFrame (epochs_table 14) :: (nat, pyvalue) pydata) =
     data_read (DataFrame (other_epochs_table 14) :: (nat, pyvalue) pydata)
   \<and> DataFrame (epochs_table 14) \<noteq> (DataFrame (other_epochs_table 14) :: (nat, pyvalue) pydata)
   \<and> calls (ppg_analyze example_eventrelated example_intervalrelated
        (DataFrame (epochs_table 14)) 1 ''auto'') =
         [IntervalRelated (DataFrame (epochs_table 14)) 1]
   \<and> calls (ppg_analyze example_eventrelated example_intervalrelated
        (DataFrame (other_epochs_table 14)) 1 ''auto'') =
         [IntervalRelated (DataFrame (other_epochs_table 14)) 1]
   \<and> data_after (ppg_analyze example_eventrelated example_intervalrelated
        (DataFrame (epochs_table 14)) 1 ''auto'') = DataFrame (epochs_table 14)
   \<and> calls (ppg_analyze clearing_eventrelated example_intervalrelated
        (DataFrame (halved_table 14)) 1 ''auto'') = [EventRelated (DataFrame (halved_table 14))]
   \<and> data_after (ppg_analyze clearing_eventrelated example_intervalrelated
        (DataFrame (halved_table 14)) 1 ''auto'') = Dict []"
proof -
  have "getcol (other_epochs_table 14) ''Label'' = getcol (epochs_table 14) ''Label''"
    by (simp add: getcol_def epochs_table_def other_epochs_table_def)
  then have same: "data_read (DataFrame (epochs_table 14) :: (nat, pyvalue) pydata) =
     data_read (DataFrame (other_epochs_table 14) :: (nat, pyvalue) pydata)"
    by (simp add: data_read_def) (simp add: epochs_table_def other_epochs_table_def)
  have differ: "DataFrame (epochs_table 14) \<noteq>
      (DataFrame (other_epochs_table 14) :: (nat, pyvalue) pydata)"
  proof
    assume "DataFrame (epochs_table 14) =
      (DataFrame (other_epochs_table 14) :: (nat, pyvalue) pydata)"
    then have "cell (epochs_table 14) 0 ''PPG_Rate'' = cell (other_epochs_table 14) 0 ''PPG_Rate''"
      by simp
    then show False by (simp add: epochs_table_def other_epochs_table_def)
  qed
  have first: "calls (ppg_analyze example_eventrelated example_intervalrelated
        (DataFrame (epochs_table 14)) 1 ''auto'') =
         [IntervalRelated (DataFrame (epochs_table 14)) 1]"
    by (simp add: auto_epochs_14)
  have others: "calls (ppg_analyze example_eventrelated example_intervalrelated
        (DataFrame (other_epochs_table 14)) 1 ''auto'') =
         [IntervalRelated (DataFrame (other_epochs_table 14)) 1]"
    and unchanged: "data_after (ppg_analyze example_eventrelated example_intervalrelated
        (DataFrame (epochs_table 14)) 1 ''auto'') = DataFrame (epochs_table 14)"
    using same first
      input_data_not_mutated
        [of example_eventrelated example_intervalrelated "DataFrame (epochs_table 14)" 1
           "''auto''" "DataFrame (other_epochs_table 14)"]
    by (simp_all add: example_intervalrelated_def)
  have cleared: "calls (ppg_analyze clearing_eventrelated example_intervalrelated
        (DataFrame (halved_table 14)) 1 ''auto'') = [EventRelated (DataFrame (halved_table 14))]"
    by (simp add: auto_halved_14)
  then have emptied: "data_after (ppg_analyze clearing_eventrelated example_intervalrelated
        (DataFrame (halved_table 14)) 1 ''auto'') = Dict []"
    using input_data_not_mutated
        [of clearing_eventrelated example_intervalrelated "DataFrame (halved_table 14)" 1
           "''auto''" "DataFrame (halved_table 14)"]
    by (simp add: clearing_eventrelated_def)
  show ?thesis using same differ first others unchanged cleared emptied by simp
qed

text \<open>
  As stated, with the column names and the row counts as all that is read, the claim fails:
  these two tables have the same column names and fourteen rows each, and at 1 Hz the one
  with an epoch of eleven rows goes to the interval-related extractor, the one with two
  epochs of seven rows to the event-related extractor.
\<close>

theorem routing_by_names_and_row_counts_counterexample:
  "columns (epochs_table 14) = columns (halved_table 14)
   \<and> nrows (epochs_table 14) = nrows (halved_table 14)
   \<and> calls (ppg_analyze example_eventrelated example_intervalrelated
        (DataFrame (epochs_table 14)) 1 ''auto'') =
       [IntervalRelated (DataFrame (epochs_table 14)) 1]
   \<and> calls (ppg_analyze example_eventrelated example_intervalrelated
        (DataFrame (halved_table 14)) 1 ''auto'') =
       [EventRelated (DataFrame (halved_table 14))]"
  by (simp add: auto_epochs_14 auto_halved_14) (simp add: epochs_table_def halved_table_def)

subsection \<open>The check of event-related mode on a mapping\<close>

text \<open>
  Claim C9. For a mapping in event-related mode the check looks at the columns of the last
  member in iteration order only: if that member has a column whose name contains
  \<^verbatim>\<open>Label\<close>, the event-related extractor is called, whatever the other members have; if it
  has none, the call fails with the \<^verbatim>\<open>ValueError\<close>, whatever the other members have.
\<close>

theorem event_check_reads_last_member:
  assumes "lower method \<in> set event_methods"
  shows "ppg_analyze ev iv (Dict (items @ [(k, df)])) sampling_rate method =
     (if \<exists>c\<in>set (columns df). str_contains ''Label'' c
      then \<lparr>result = fst (ev (Dict (items @ [(k, df)]))),
            data_after = snd (ev (Dict (items @ [(k, df)]))),
            calls = [EventRelated (Dict (items @ [(k, df)]))]\<rparr>
      else \<lparr>result = Inl (ValueError mismatch_message),
            data_after = Dict (items @ [(k, df)]), calls = []\<rparr>)"
proof -
  have "event_colnames (Dict (items @ [(k, df)])) = Some (columns df)"
    by (simp add: event_colnames_def colnames_loop_last)
  then show ?thesis
    using event_branch[OF assms, of "Dict (items @ [(k, df)])" "columns df" ev iv] by simp
qed

text \<open>
  Two tables without a label column followed by a table of epochs pass the check; two
  tables of epochs followed by a table without a label column fail it.
\<close>

theorem event_check_reads_last_member_witness:
  "lower ''event-related'' \<in> set event_methods
   \<and> \<not> (\<exists>c\<in>set (columns (signals 2000)). str_contains ''Label'' c)
   \<and> (\<exists>c\<in>set (columns (epochs_table 2000)). str_contains ''Label'' c)
   \<and> ppg_analyze example_eventrelated example_intervalrelated
        (Dict ([(1, signals 2000), (2, signals 2000)] @ [(3, epochs_table 2000)]))
        1000 ''event-related'' =
      \<lparr>result = Inr ''event-related features'',
       data_after = Dict ([(1, signals 2000), (2, signals 2000)] @ [(3, epochs_table 2000)]),
       calls = [EventRelated
         (Dict ([(1, signals 2000), (2, signals 2000)] @ [(3, epochs_table 2000)]))]\<rparr>
   \<and> ppg_analyze example_eventrelated example_intervalrelated
        (Dict ([(1, epochs_table 2000), (2, epochs_table 2000)] @ [(3, signals 2000)]))
        1000 ''event-related'' =
      \<lparr>result = Inl (ValueError mismatch_message),
       data_after = Dict ([(1, epochs_table 2000), (2, epochs_table 2000)] @ [(3, signals 2000)]),
       calls = []\<rparr>"
  using event_check_reads_last_member
      [of "''event-related''" example_eventrelated example_intervalrelated
         "[(1, signals 2000), (2, signals 2000)]" 3 "epochs_table 2000" 1000]
    event_check_reads_last_member
      [of "''event-related''" example_eventrelated example_intervalrelated
         "[(1, epochs_table 2000), (2, epochs_table 2000)]" 3 "signals 2000" 1000]
  by (simp add: lower_eval event_methods_def example_eventrelated_def)
     (simp add: epochs_table_def signals_def startswith_def)

subsection \<open>Data from which nothing is read\<close>

text \<open>
  Claim C10. For an empty mapping, and for data that is neither a mapping nor a table, a
  method of the event-related group fails on the unbound \<^verbatim>\<open>colnames\<close>, not with the
  \<^verbatim>\<open>ValueError\<close>. In automatic mode such data leaves \<^verbatim>\<open>features\<close> unbound as well: no
  extractor is called, and the call fails on the unbound \<^verbatim>\<open>duration\<close> for the empty
  mapping and on the unbound \<^verbatim>\<open>features\<close> for the other data.
\<close>

theorem unbound_on_empty_or_foreign_data:
  assumes "data = Dict [] \<or> data = Other"
  shows "(lower method \<in> set event_methods \<longrightarrow>
            ppg_analyze ev iv data sampling_rate method =
              \<lparr>result = Inl (UnboundLocalError ''colnames''), data_after = data, calls = []\<rparr>)
       \<and> (lower method = ''auto'' \<longrightarrow>
            ppg_analyze ev iv data sampling_rate method =
              \<lparr>result =
                 Inl (UnboundLocalError (if data = Other then ''features'' else ''duration'')),
               data_after = data, calls = []\<rparr>)"
  using assms auto_not_event auto_not_interval
  by (auto simp: ppg_analyze_def Let_def raise_def event_colnames_def)

theorem unbound_on_empty_or_foreign_data_witness:
  "((Dict [] :: (nat, pyvalue) pydata) = Dict [] \<or> (Dict [] :: (nat, pyvalue) pydata) = Other)
   \<and> lower ''event'' \<in> set event_methods
   \<and> ppg_analyze example_eventrelated example_intervalrelated (Dict []) 1000 ''event'' =
       \<lparr>result = Inl (UnboundLocalError ''colnames''), data_after = Dict [], calls = []\<rparr>
   \<and> lower ''auto'' = ''auto''
   \<and> ppg_analyze example_eventrelated example_intervalrelated (Dict []) 1000 ''auto'' =
       \<lparr>result = Inl (UnboundLocalError ''duration''), data_after = Dict [], calls = []\<rparr>
   \<and> ppg_analyze example_eventrelated example_intervalrelated Other 1000 ''auto'' =
       \<lparr>result = Inl (UnboundLocalError ''features''), data_after = Other, calls = []\<rparr>"
  using unbound_on_empty_or_foreign_data
      [of "Dict []" "''event''" example_eventrelated example_intervalrelated 1000]
    unbound_on_empty_or_foreign_data
      [of "Dict []" "''auto''" example_eventrelated example_intervalrelated 1000]
    unbound_on_empty_or_foreign_data
      [of Other "''auto''" example_eventrelated example_intervalrelated 1000]
  by (simp add: lower_eval event_methods_def)

end
